theory Spec2Isabelle
  imports Main
begin

section \<open>Python values, errors and dictionaries\<close>

text \<open>
  The exceptions that the modelled statements of \<^verbatim>\<open>src/i.py\<close> can raise:
  \<^verbatim>\<open>del d[k]\<close> on a missing key (KeyError), \<^verbatim>\<open>next(iter(d))\<close> on an empty
  dictionary (StopIteration), and the standard-library constructors and \<^verbatim>\<open>int()\<close>
  called by \<^verbatim>\<open>Client.__init__\<close> (ValueError).
\<close>

datatype error = KeyError | StopIteration | ValueError

text \<open>
  A value stored in the cache is any Python object; \<^verbatim>\<open>None\<close> is one of them and is
  also what \<^verbatim>\<open>dict.get(key, None)\<close> returns for a missing key.
\<close>

datatype 'v pyobj = PyNone | Obj 'v

text \<open>
  A Python \<^verbatim>\<open>dict\<close> keeps its keys in insertion order, so it is an association list,
  oldest entry first, with pairwise distinct keys. Keys are hashable values.
\<close>

type_synonym ('k, 'v) dict = "('k \<times> 'v) list"

definition dict_contains :: "('k, 'v) dict \<Rightarrow> 'k \<Rightarrow> bool" where
  \<comment> \<open>\<^verbatim>\<open>key in d\<close>\<close>
  "dict_contains d k = (k \<in> set (map fst d))"

definition dict_get :: "('k, 'v) dict \<Rightarrow> 'k \<Rightarrow> 'v \<Rightarrow> 'v" where
  \<comment> \<open>\<^verbatim>\<open>d.get(key, default)\<close>\<close>
  "dict_get d k dflt = (case map_of d k of None \<Rightarrow> dflt | Some v \<Rightarrow> v)"

definition dict_del :: "('k, 'v) dict \<Rightarrow> 'k \<Rightarrow> error + ('k, 'v) dict" where
  \<comment> \<open>\<^verbatim>\<open>del d[key]\<close>\<close>
  "dict_del d k =
     (if dict_contains d k then Inr (filter (\<lambda>p. fst p \<noteq> k) d) else Inl KeyError)"

fun dict_set :: "('k, 'v) dict \<Rightarrow> 'k \<Rightarrow> 'v \<Rightarrow> ('k, 'v) dict" where
  \<comment> \<open>\<^verbatim>\<open>d[key] = value\<close>: an existing key keeps its position, a new key goes last\<close>
  "dict_set [] k v = [(k, v)]"
| "dict_set (p # d) k v = (if fst p = k then (k, v) # d else p # dict_set d k v)"

definition dict_first_key :: "('k, 'v) dict \<Rightarrow> error + 'k" where
  \<comment> \<open>\<^verbatim>\<open>next(iter(d))\<close>\<close>
  "dict_first_key d = (case d of [] \<Rightarrow> Inl StopIteration | p # _ \<Rightarrow> Inr (fst p))"

definition dict_len :: "('k, 'v) dict \<Rightarrow> int" where
  \<comment> \<open>\<^verbatim>\<open>len(d)\<close>\<close>
  "dict_len d = int (length d)"

section \<open>The bounded cache (class Cache)\<close>

record ('k, 'v) Cache =
  capacity :: int
  store :: "('k, 'v pyobj) dict"

definition Cache_init :: "int \<Rightarrow> ('k, 'v) Cache" where
  \<comment> \<open>\<^verbatim>\<open>Cache.__init__\<close>: no check of the capacity\<close>
  "Cache_init cap = \<lparr>capacity = cap, store = []\<rparr>"

definition Cache_getitem :: "('k, 'v) Cache \<Rightarrow> 'k \<Rightarrow> 'v pyobj" where
  \<comment> \<open>\<^verbatim>\<open>Cache.__getitem__\<close>\<close>
  "Cache_getitem c key = dict_get (store c) key PyNone"

text \<open>
  The eviction loop \<^verbatim>\<open>for _ in range(n): del self.store[next(iter(self.store))]\<close>,
  with \<open>n\<close> the number of iterations that are left.
\<close>

fun evict_loop :: "nat \<Rightarrow> ('k, 'v) dict \<Rightarrow> error + ('k, 'v) dict" where
  "evict_loop 0 d = Inr d"
| "evict_loop (Suc n) d =
     (case dict_first_key d of
        Inl e \<Rightarrow> Inl e
      | Inr k \<Rightarrow> (case dict_del d k of Inl e \<Rightarrow> Inl e | Inr d' \<Rightarrow> evict_loop n d'))"

text \<open>
  \<^verbatim>\<open>Cache.__setitem__\<close>. Python's \<^verbatim>\<open>//\<close> rounds towards minus infinity, as
  \<open>div\<close> on \<open>int\<close> does, and \<^verbatim>\<open>range(n)\<close> is empty for \<open>n \<le> 0\<close>, as \<open>nat n\<close>
  iterations are.
\<close>

definition Cache_setitem ::
  "('k, 'v) Cache \<Rightarrow> 'k \<Rightarrow> 'v pyobj \<Rightarrow> error + ('k, 'v) Cache" where
  "Cache_setitem c key val =
     (case (if dict_contains (store c) key then dict_del (store c) key else Inr (store c)) of
        Inl e \<Rightarrow> Inl e
      | Inr s1 \<Rightarrow>
          (let s2 = dict_set s1 key val in
           if dict_len s2 > capacity c then
             (case evict_loop (nat (capacity c div 2 + 1)) s2 of
                Inl e \<Rightarrow> Inl e
              | Inr s3 \<Rightarrow> Inr (c\<lparr>store := s3\<rparr>))
           else Inr (c\<lparr>store := s2\<rparr>)))"

text \<open>
  A client of the cache issues puts and gets; \<open>run_ops\<close> performs a sequence of them,
  stopping at the first exception.
\<close>

datatype ('k, 'v) cache_op = Put 'k "'v pyobj" | Get 'k

fun run_ops :: "('k, 'v) Cache \<Rightarrow> ('k, 'v) cache_op list \<Rightarrow> error + ('k, 'v) Cache" where
  "run_ops c [] = Inr c"
| "run_ops c (Put k v # ops) =
     (case Cache_setitem c k v of Inl e \<Rightarrow> Inl e | Inr c' \<Rightarrow> run_ops c' ops)"
| "run_ops c (Get k # ops) = (let r = Cache_getitem c k in run_ops c ops)"

text \<open>Whether an operation writes the key \<open>k\<close>.\<close>

fun puts_key :: "'k \<Rightarrow> ('k, 'v) cache_op \<Rightarrow> bool" where
  "puts_key k (Put k' v) = (k' = k)"
| "puts_key k (Get k') = False"

section \<open>Client construction (Client.__init__)\<close>

text \<open>
  What the constructor reads from outside: \<^verbatim>\<open>os.cpu_count()\<close> (which can be
  \<^verbatim>\<open>None\<close>), whether \<^verbatim>\<open>import pymongo\<close> succeeded when the module was loaded,
  the directory of the script (\<^verbatim>\<open>PARENT_DIR\<close>), and the builtin \<^verbatim>\<open>int()\<close> on
  strings, taken as a parameter (\<open>None\<close> where it raises ValueError).
\<close>

record environment =
  cpu_count :: "int option"
  pymongo_importable :: bool
  parent_dir :: string
  int_of_str :: "string \<Rightarrow> int option"

definition MONGO_AVAIL :: "environment \<Rightarrow> bool" where
  \<comment> \<open>\<^verbatim>\<open>False\<close>, set to \<^verbatim>\<open>True\<close> in the \<^verbatim>\<open>else\<close> branch of the guarded import\<close>
  "MONGO_AVAIL env = (if pymongo_importable env then True else False)"

definition WORKERS :: "environment \<Rightarrow> int" where
  \<comment> \<open>\<^verbatim>\<open>min(32, (os.cpu_count() or 0) + 4)\<close>\<close>
  "WORKERS env =
     min 32 ((case cpu_count env of None \<Rightarrow> 0 | Some n \<Rightarrow> if n \<noteq> 0 then n else 0) + 4)"

definition MAX_CONCURRENT_TRANSMISSIONS :: int where
  "MAX_CONCURRENT_TRANSMISSIONS = 1"

definition MAX_CACHE_SIZE :: int where
  "MAX_CACHE_SIZE = 10000"

text \<open>
  The arguments of the constructor that the modelled statements read. For an argument
  whose default is \<^verbatim>\<open>None\<close> the option is Python's \<^verbatim>\<open>None\<close>; for \<open>arg_workers\<close>,
  \<open>arg_workdir\<close>, \<open>arg_max_concurrent_transmissions\<close> and the two cache sizes, \<open>None\<close>
  says that the caller left the argument out, so that the class constant is used.
  \<open>'s\<close> is the type of a storage object passed by the caller; the values of the
  \<^verbatim>\<open>mongodb\<close> dictionary are opaque.
\<close>

datatype api_id_arg = IdInt int | IdStr string

record 's client_args =
  arg_name :: string
  arg_api_id :: "api_id_arg option"
  arg_api_hash :: "string option"
  arg_bot_token :: "string option"
  arg_session_string :: "string option"
  arg_in_memory :: "bool option"
  arg_mongodb :: "(string, string) dict option"
  arg_storage :: "'s option"
  arg_workers :: "int option"
  arg_workdir :: "string option"
  arg_max_concurrent_transmissions :: "int option"
  arg_max_message_cache_size :: "int option"
  arg_max_business_user_connection_cache_size :: "int option"

text \<open>Python's truth value of an argument, as \<^verbatim>\<open>if x:\<close> tests it.\<close>

definition truthy_str :: "string option \<Rightarrow> bool" where
  "truthy_str s = (case s of None \<Rightarrow> False | Some x \<Rightarrow> x \<noteq> [])"

definition truthy_bool :: "bool option \<Rightarrow> bool" where
  "truthy_bool b = (case b of None \<Rightarrow> False | Some x \<Rightarrow> x)"

definition truthy_dict :: "('a, 'b) dict option \<Rightarrow> bool" where
  "truthy_dict d = (case d of None \<Rightarrow> False | Some x \<Rightarrow> x \<noteq> [])"

definition truthy_api_id :: "api_id_arg option \<Rightarrow> bool" where
  "truthy_api_id a =
     (case a of None \<Rightarrow> False | Some (IdInt n) \<Rightarrow> n \<noteq> 0 | Some (IdStr s) \<Rightarrow> s \<noteq> [])"

text \<open>
  The objects the constructor creates. The storage classes are collaborators: a storage
  object is the class together with the arguments it was created from. A storage object
  passed by the caller is true in \<^verbatim>\<open>if storage:\<close>, as an object without
  \<^verbatim>\<open>__bool__\<close> and \<^verbatim>\<open>__len__\<close> is. The thread pool and the semaphore are the
  standard library's: \<^verbatim>\<open>ThreadPoolExecutor(max_workers)\<close> raises ValueError for
  \<^verbatim>\<open>max_workers <= 0\<close>, \<^verbatim>\<open>asyncio.Semaphore(value)\<close> raises ValueError for
  \<^verbatim>\<open>value < 0\<close> and starts its counter at \<^verbatim>\<open>value\<close>.
\<close>

datatype 's storage_obj =
    GivenStorage 's
  | MemoryStorage string "string option"
  | MongoStorage string "(string, string) dict"
  | FileStorage string string

datatype log_record = Warning string

record thread_pool =
  max_workers :: int
  thread_name_prefix :: string

record semaphore =
  sem_value :: int

definition ThreadPoolExecutor :: "int \<Rightarrow> string \<Rightarrow> error + thread_pool" where
  "ThreadPoolExecutor n prefix =
     (if n \<le> 0 then Inl ValueError else Inr \<lparr>max_workers = n, thread_name_prefix = prefix\<rparr>)"

text \<open>
  Every call of \<^verbatim>\<open>asyncio.Semaphore\<close> creates a new object, and an attribute holds a
  reference to its object, so that two attributes hold either one object or two. The
  semaphore objects therefore live in a store: a list addressed by position, to which a
  new object is appended. \<open>sem_update\<close> is an assignment to an object's state, which is
  what acquiring and releasing do.
\<close>

type_synonym sem_ref = nat

type_synonym sem_store = "semaphore list"

definition sem_lookup :: "sem_store \<Rightarrow> sem_ref \<Rightarrow> semaphore option" where
  "sem_lookup h r = (if r < length h then Some (h ! r) else None)"

definition sem_update :: "sem_store \<Rightarrow> sem_ref \<Rightarrow> semaphore \<Rightarrow> sem_store" where
  "sem_update h r s = (if r < length h then h[r := s] else h)"

definition Semaphore :: "int \<Rightarrow> sem_store \<Rightarrow> error + (sem_ref \<times> sem_store)" where
  "Semaphore v h =
     (if v < 0 then Inl ValueError else Inr (length h, h @ [\<lparr>sem_value = v\<rparr>]))"

record 's Client =
  name :: string
  api_id :: "int option"
  api_hash :: "string option"
  bot_token :: "string option"
  session_string :: "string option"
  in_memory :: "bool option"
  mongodb :: "(string, string) dict option"
  workers :: int
  workdir :: string
  max_concurrent_transmissions :: int
  max_message_cache_size :: int
  max_business_user_connection_cache_size :: int
  executor :: thread_pool
  storage :: "'s storage_obj"
  save_file_semaphore :: sem_ref
  get_file_semaphore :: sem_ref

definition init_api_id :: "environment \<Rightarrow> api_id_arg option \<Rightarrow> error + int option" where
  \<comment> \<open>\<^verbatim>\<open>self.api_id = int(api_id) if api_id else None\<close>\<close>
  "init_api_id env a =
     (if truthy_api_id a then
        (case a of
           None \<Rightarrow> Inr None
         | Some (IdInt n) \<Rightarrow> Inr (Some n)
         | Some (IdStr s) \<Rightarrow>
             (case int_of_str env s of None \<Rightarrow> Inl ValueError | Some n \<Rightarrow> Inr (Some n)))
      else Inr None)"

definition bot_fallback ::
  "string option \<Rightarrow> int option \<Rightarrow> string option \<Rightarrow> int option \<times> string option" where
  \<comment> \<open>\<^verbatim>\<open>if bot_token and (self.api_id is None or self.api_hash is None): ...\<close>\<close>
  "bot_fallback tok aid ahash =
     (if truthy_str tok \<and> (aid = None \<or> ahash = None)
      then (Some 123456, Some ''0123456789abcdef0123456789abcdef'')
      else (aid, ahash))"

definition select_storage ::
  "bool \<Rightarrow> string \<Rightarrow> 's option \<Rightarrow> string option \<Rightarrow> bool option \<Rightarrow>
   (string, string) dict option \<Rightarrow> string \<Rightarrow> 's storage_obj \<times> log_record list" where
  \<comment> \<open>the \<^verbatim>\<open>if storage: ... elif ... else\<close> chain, with the records it logs\<close>
  "select_storage mongo_avail nm st sess mem mongo wd =
     (case st of
        Some s \<Rightarrow> (GivenStorage s, [])
      | None \<Rightarrow>
          if truthy_str sess then (MemoryStorage nm sess, [])
          else if truthy_bool mem then (MemoryStorage nm None, [])
          else if truthy_dict mongo then
            (if \<not> mongo_avail then
               (MemoryStorage nm None,
                [Warning ''pymongo is missing! Using MemoryStorage as session storage''])
             else (MongoStorage nm (case mongo of None \<Rightarrow> [] | Some d \<Rightarrow> d), []))
          else (FileStorage nm wd, []))"

text \<open>
  The constructor, in the order of its statements: the credentials, the copies of the
  arguments, the executor, the storage, the two semaphores. It is given the store of
  semaphore objects and returns the records logged and either the exception raised or
  the new client with the store as it then is. The statements left out are copies of
  further arguments and the creation of collaborators (dispatcher, parser, lock, event,
  the two caches, which are \<open>Cache_init\<close> of the two cache sizes).
\<close>

definition Client_init ::
  "environment \<Rightarrow> 's client_args \<Rightarrow> sem_store \<Rightarrow>
   log_record list \<times> (error + 's Client \<times> sem_store)" where
  "Client_init env a h =
     (let workers' = (case arg_workers a of None \<Rightarrow> WORKERS env | Some w \<Rightarrow> w);
          workdir' = (case arg_workdir a of None \<Rightarrow> parent_dir env | Some w \<Rightarrow> w);
          mct = (case arg_max_concurrent_transmissions a of
                   None \<Rightarrow> MAX_CONCURRENT_TRANSMISSIONS | Some m \<Rightarrow> m);
          mmcs = (case arg_max_message_cache_size a of
                   None \<Rightarrow> MAX_CACHE_SIZE | Some m \<Rightarrow> m);
          mbcs = (case arg_max_business_user_connection_cache_size a of
                   None \<Rightarrow> MAX_CACHE_SIZE | Some m \<Rightarrow> m)
      in case init_api_id env (arg_api_id a) of
        Inl e \<Rightarrow> ([], Inl e)
      | Inr aid \<Rightarrow>
          (case bot_fallback (arg_bot_token a) aid (arg_api_hash a) of
             (aid', ahash') \<Rightarrow>
               (case ThreadPoolExecutor workers' ''Handler'' of
                  Inl e \<Rightarrow> ([], Inl e)
                | Inr ex \<Rightarrow>
                    (case select_storage (MONGO_AVAIL env) (arg_name a) (arg_storage a)
                            (arg_session_string a) (arg_in_memory a) (arg_mongodb a) workdir' of
                       (st, logs) \<Rightarrow>
                         (case Semaphore mct h of
                            Inl e \<Rightarrow> (logs, Inl e)
                          | Inr (sem1, h1) \<Rightarrow>
                              (case Semaphore mct h1 of
                                 Inl e \<Rightarrow> (logs, Inl e)
                               | Inr (sem2, h2) \<Rightarrow>
                                   (logs, Inr (\<lparr>name = arg_name a, api_id = aid',
                                      api_hash = ahash', bot_token = arg_bot_token a,
                                      session_string = arg_session_string a,
                                      in_memory = arg_in_memory a, mongodb = arg_mongodb a,
                                      workers = workers', workdir = workdir',
                                      max_concurrent_transmissions = mct,
                                      max_message_cache_size = mmcs,
                                      max_business_user_connection_cache_size = mbcs,
                                      executor = ex, storage = st,
                                      save_file_semaphore = sem1,
                                      get_file_semaphore = sem2\<rparr>, h2))))))))"

section \<open>Dictionary lemmas\<close>

lemma dict_set_fresh:
  "k \<notin> set (map fst d) \<Longrightarrow> dict_set d k v = d @ [(k, v)]"
  by (induction d) auto

lemma filter_key_distinct_head:
  "distinct (map fst (p # d)) \<Longrightarrow> filter (\<lambda>q. fst q \<noteq> fst p) (p # d) = d"
  by (auto simp: filter_id_conv rev_image_eqI)

lemma evict_loop_drop:
  "distinct (map fst d) \<Longrightarrow> n \<le> length d \<Longrightarrow> evict_loop n d = Inr (drop n d)"
proof (induction n arbitrary: d)
  case 0
  then show ?case by simp
next
  case (Suc n)
  then obtain p d' where d: "d = p # d'"
    by (cases d) auto
  from Suc.prems d have del: "dict_del d (fst p) = Inr d'"
    using filter_key_distinct_head [of p d']
    by (simp add: dict_del_def dict_contains_def)
  from Suc.prems d have "evict_loop n d' = Inr (drop n d')"
    by (intro Suc.IH) auto
  with del d show ?case
    by (simp add: dict_first_key_def)
qed

lemma filter_key_absent:
  "k \<notin> set (map fst d) \<Longrightarrow> filter (\<lambda>p. fst p \<noteq> k) d = d"
  by (induction d) auto

lemma distinct_filter_snoc:
  "distinct (map fst d) \<Longrightarrow> distinct (map fst (filter (\<lambda>p. fst p \<noteq> k) d @ [(k, v)]))"
  by (induction d) auto

lemma length_filter_key_present:
  "distinct (map fst d) \<Longrightarrow> k \<in> set (map fst d) \<Longrightarrow>
   Suc (length (filter (\<lambda>p. fst p \<noteq> k) d)) = length d"
proof (induction d)
  case Nil
  then show ?case by simp
next
  case (Cons p d)
  show ?case
  proof (cases "fst p = k")
    case True
    with Cons.prems have "k \<notin> set (map fst d)" by auto
    then have "filter (\<lambda>p. fst p \<noteq> k) d = d" by (rule filter_key_absent)
    with True show ?thesis by simp
  next
    case False
    with Cons show ?thesis by auto
  qed
qed

lemma map_of_snoc_fresh:
  "k \<notin> set (map fst d) \<Longrightarrow> map_of (d @ [(k, v)]) k = Some v"
  by (induction d) auto

lemma map_of_drop_distinct:
  "distinct (map fst d) \<Longrightarrow> map_of (drop n d) k = None \<or> map_of (drop n d) k = map_of d k"
proof (induction d arbitrary: n)
  case Nil
  then show ?case by simp
next
  case (Cons p d)
  show ?case
  proof (cases n)
    case 0
    then show ?thesis by simp
  next
    case (Suc m)
    from Cons.prems have d: "distinct (map fst d)" and p: "fst p \<notin> set (map fst d)"
      by auto
    have "map_of d (fst p) = None"
      using p by (simp add: map_of_eq_None_iff)
    with Cons.IH [OF d, of m] Suc show ?thesis
      by (cases p) auto
  qed
qed

lemma map_of_filter_other:
  "k \<noteq> k' \<Longrightarrow> map_of (filter (\<lambda>p. fst p \<noteq> k') d @ [(k', w)]) k = map_of d k"
  by (induction d) auto

section \<open>What a put does\<close>

lemma evict_count_le:
  "c < int n \<Longrightarrow> nat (c div 2 + 1) \<le> n"
  by linarith

text \<open>
  On a dictionary a put never raises: the key is removed and appended, and when the
  new length exceeds the capacity the loop drops the first \<open>capacity div 2 + 1\<close>
  entries, which are always there.
\<close>

lemma setitem_store:
  assumes "distinct (map fst (store c))"
  shows "Cache_setitem c key val =
     Inr (c\<lparr>store :=
       (let s2 = filter (\<lambda>p. fst p \<noteq> key) (store c) @ [(key, val)]
        in if capacity c < int (length s2) then drop (nat (capacity c div 2 + 1)) s2 else s2)\<rparr>)"
proof -
  let ?s1 = "filter (\<lambda>p. fst p \<noteq> key) (store c)"
  let ?s2 = "?s1 @ [(key, val)]"
  have s1: "(if dict_contains (store c) key then dict_del (store c) key else Inr (store c))
            = Inr ?s1"
    by (simp add: dict_del_def dict_contains_def filter_key_absent)
  have fresh: "key \<notin> set (map fst ?s1)"
    by auto
  have s2: "dict_set ?s1 key val = ?s2"
    using fresh by (rule dict_set_fresh)
  have dist: "distinct (map fst ?s2)"
    using assms by (rule distinct_filter_snoc)
  have ev: "evict_loop (nat (capacity c div 2 + 1)) ?s2 = Inr (drop (nat (capacity c div 2 + 1)) ?s2)"
    if "capacity c < int (length ?s2)"
    using dist evict_count_le [OF that] by (rule evict_loop_drop)
  show ?thesis
    unfolding Cache_setitem_def s1 using ev
    by (simp add: s2 dict_len_def Let_def del: drop_append)
qed

lemma setitem_keeps:
  assumes "distinct (map fst (store c))" and "Cache_setitem c k v = Inr c'"
  shows "distinct (map fst (store c')) \<and> capacity c' = capacity c"
proof -
  let ?s2 = "filter (\<lambda>p. fst p \<noteq> k) (store c) @ [(k, v)]"
  have "distinct (map fst ?s2)"
    using assms(1) by (rule distinct_filter_snoc)
  then have "distinct (map fst (drop n ?s2))" for n
    unfolding drop_map [symmetric] by (rule distinct_drop)
  with \<open>distinct (map fst ?s2)\<close> assms(2) show ?thesis
    unfolding setitem_store [OF assms(1)] by (auto simp: Let_def simp del: drop_append)
qed

lemma setitem_bound:
  assumes "distinct (map fst (store c))" and "int (length (store c)) \<le> capacity c"
    and "Cache_setitem c k v = Inr c'"
  shows "int (length (store c')) \<le> capacity c'"
proof -
  let ?s2 = "filter (\<lambda>p. fst p \<noteq> k) (store c) @ [(k, v)]"
  let ?n = "nat (capacity c div 2 + 1)"
  have len: "length ?s2 \<le> Suc (length (store c))"
    by simp
  have "1 \<le> ?n"
    using assms(2) by linarith
  with len have "length ?s2 - ?n \<le> length (store c)"
    by linarith
  with assms(2) have drop: "int (length (drop ?n ?s2)) \<le> capacity c"
    unfolding length_drop by linarith
  have keep: "int (length ?s2) \<le> capacity c" if "\<not> capacity c < int (length ?s2)"
    using that by linarith
  from assms(3) have "store c' = (if capacity c < int (length ?s2) then drop ?n ?s2 else ?s2)"
    and "capacity c' = capacity c"
    unfolding setitem_store [OF assms(1)] by (auto simp: Let_def simp del: drop_append)
  with drop keep show ?thesis
    by (simp del: drop_append length_drop length_append)
qed

lemma run_ops_total:
  "distinct (map fst (store c)) \<Longrightarrow>
   \<exists>c'. run_ops c ops = Inr c' \<and> distinct (map fst (store c')) \<and> capacity c' = capacity c"
proof (induction ops arbitrary: c)
  case Nil
  then show ?case by simp
next
  case (Cons op ops)
  show ?case
  proof (cases op)
    case (Put k v)
    obtain c1 where c1: "Cache_setitem c k v = Inr c1"
      using setitem_store [OF Cons.prems] by blast
    from setitem_keeps [OF Cons.prems c1] Cons.IH [of c1] c1 Put show ?thesis
      by auto
  next
    case (Get k)
    with Cons.IH [OF Cons.prems] show ?thesis by simp
  qed
qed

lemma run_ops_bound:
  "distinct (map fst (store c)) \<Longrightarrow> int (length (store c)) \<le> capacity c \<Longrightarrow>
   run_ops c ops = Inr c' \<Longrightarrow> int (length (store c')) \<le> capacity c'"
proof (induction ops arbitrary: c)
  case Nil
  then show ?case by simp
next
  case (Cons op ops)
  show ?case
  proof (cases op)
    case (Put k v)
    obtain c1 where c1: "Cache_setitem c k v = Inr c1"
      using setitem_store [OF Cons.prems(1)] by blast
    have "distinct (map fst (store c1))"
      using setitem_keeps [OF Cons.prems(1) c1] by simp
    moreover have "int (length (store c1)) \<le> capacity c1"
      using Cons.prems(1,2) c1 by (rule setitem_bound)
    moreover have "run_ops c1 ops = Inr c'"
      using Cons.prems(3) Put c1 by simp
    ultimately show ?thesis by (rule Cons.IH)
  next
    case (Get k)
    with Cons.IH [OF Cons.prems(1,2)] Cons.prems(3) show ?thesis by simp
  qed
qed

section \<open>The size bound\<close>

text \<open>
  Claim C1. For a cache created with a positive capacity \<open>C\<close>, after any sequence of
  puts and gets from the empty cache, a further put returns (it raises nothing) and
  leaves at most \<open>C\<close> entries in the store; the capacity itself never changes.
\<close>

theorem put_keeps_size_bound:
  assumes "0 < C"
  shows "\<exists>c c'. run_ops (Cache_init C) ops = Inr c \<and> Cache_setitem c k v = Inr c'
           \<and> capacity c' = C \<and> dict_len (store c') \<le> C"
proof -
  have d0: "distinct (map fst (store (Cache_init C :: ('a, 'b) Cache)))"
    by (simp add: Cache_init_def)
  have b0: "int (length (store (Cache_init C :: ('a, 'b) Cache))) \<le> capacity (Cache_init C :: ('a, 'b) Cache)"
    using assms by (simp add: Cache_init_def)
  obtain c where c: "run_ops (Cache_init C) ops = Inr (c :: ('a, 'b) Cache)"
    and dc: "distinct (map fst (store c))" and cc: "capacity c = C"
    using run_ops_total [OF d0, of ops] by (auto simp: Cache_init_def)
  have bc: "int (length (store c)) \<le> capacity c"
    using d0 b0 c by (rule run_ops_bound)
  obtain c' where c': "Cache_setitem c k v = Inr c'"
    using setitem_store [OF dc] by blast
  have "capacity c' = C"
    using setitem_keeps [OF dc c'] cc by simp
  moreover have "dict_len (store c') \<le> capacity c'"
    unfolding dict_len_def using dc bc c' by (rule setitem_bound)
  ultimately show ?thesis
    using c c' by auto
qed

theorem put_keeps_size_bound_witness:
  "run_ops (Cache_init 3) [Put (1::nat) (Obj (10::nat)), Put 2 (Obj 20), Get 1, Put 3 (Obj 30)]
     = Inr \<lparr>capacity = 3, store = [(1, Obj 10), (2, Obj 20), (3, Obj 30)]\<rparr>
   \<and> Cache_setitem \<lparr>capacity = 3, store = [(1::nat, Obj (10::nat)), (2, Obj 20), (3, Obj 30)]\<rparr> 4 (Obj 40)
     = Inr \<lparr>capacity = 3, store = [(3, Obj 30), (4, Obj 40)]\<rparr>
   \<and> dict_len [(3::nat, Obj (30::nat)), (4, Obj 40)] \<le> 3"
  using put_keeps_size_bound [of 3 "[Put (1::nat) (Obj (10::nat)), Put 2 (Obj 20), Get 1, Put 3 (Obj 30)]" 4 "Obj 40"]
  by (simp add: Cache_init_def Cache_setitem_def dict_contains_def dict_del_def dict_len_def
      dict_first_key_def Cache_getitem_def Let_def eval_nat_numeral)

lemma reachable_inv:
  assumes "run_ops (Cache_init C) ops = Inr c"
  shows "distinct (map fst (store c)) \<and> capacity c = C \<and> (0 \<le> C \<longrightarrow> int (length (store c)) \<le> C)"
proof -
  have d0: "distinct (map fst (store (Cache_init C :: ('a, 'b) Cache)))"
    by (simp add: Cache_init_def)
  from run_ops_total [OF d0, of ops] assms
  have dc: "distinct (map fst (store c))" and cc: "capacity c = C"
    by (auto simp: Cache_init_def)
  have "int (length (store c)) \<le> capacity c" if "0 \<le> C"
  proof -
    have "int (length (store (Cache_init C :: ('a, 'b) Cache)))
            \<le> capacity (Cache_init C :: ('a, 'b) Cache)"
      using that by (simp add: Cache_init_def)
    with d0 show ?thesis using assms by (rule run_ops_bound)
  qed
  with dc cc show ?thesis by simp
qed

section \<open>Eviction on overflow\<close>

text \<open>
  Claim C2. When a cache with positive capacity \<open>C\<close> holds exactly \<open>C\<close> entries, a put
  of a key that is not in it removes exactly the \<open>C div 2 + 1\<close> oldest entries (the
  front of the store), keeps every other entry in its order, and keeps the new entry,
  which comes last.
\<close>

theorem overflow_evicts_oldest:
  assumes "0 < capacity c" and "distinct (map fst (store c))"
    and "dict_len (store c) = capacity c" and "\<not> dict_contains (store c) key"
  shows "Cache_setitem c key val =
           Inr (c\<lparr>store := drop (nat (capacity c div 2 + 1)) (store c) @ [(key, val)]\<rparr>)
       \<and> int (length (take (nat (capacity c div 2 + 1)) (store c))) = capacity c div 2 + 1"
proof -
  let ?n = "nat (capacity c div 2 + 1)"
  have same: "filter (\<lambda>p. fst p \<noteq> key) (store c) = store c"
    using assms(4) by (simp add: dict_contains_def filter_key_absent)
  have len: "int (length (store c)) = capacity c"
    using assms(3) by (simp add: dict_len_def)
  have n: "?n \<le> length (store c)"
    using assms(1) len by linarith
  have "drop ?n (store c @ [(key, val)]) = drop ?n (store c) @ [(key, val)]"
    using n by simp
  moreover have "capacity c < int (length (store c @ [(key, val)]))"
    using len by simp
  ultimately have "Cache_setitem c key val =
      Inr (c\<lparr>store := drop ?n (store c) @ [(key, val)]\<rparr>)"
    unfolding setitem_store [OF assms(2)] same by (simp add: Let_def del: drop_append)
  moreover have "int (length (take ?n (store c))) = capacity c div 2 + 1"
    using n assms(1) by (simp add: min_absorb2)
  ultimately show ?thesis by simp
qed

theorem overflow_evicts_oldest_witness:
  "Cache_setitem \<lparr>capacity = 3, store = [(1::nat, Obj (10::nat)), (2, Obj 20), (3, Obj 30)]\<rparr> 4 (Obj 40)
     = Inr \<lparr>capacity = 3, store = [(3, Obj 30), (4, Obj 40)]\<rparr>
   \<and> length (take (nat (3 div 2 + 1)) [(1::nat, Obj (10::nat)), (2, Obj 20), (3, Obj 30)]) = 2"
  using overflow_evicts_oldest
    [of "\<lparr>capacity = 3, store = [(1::nat, Obj (10::nat)), (2, Obj 20), (3, Obj 30)]\<rparr>" 4 "Obj 40"]
  by (simp add: dict_len_def dict_contains_def eval_nat_numeral)

section \<open>Putting a key again\<close>

text \<open>
  Claim C3. In a cache reached from the empty one by puts and gets, a put of a key that
  is already present removes its entry and appends the key with the new value, so that
  it becomes the most recently inserted one; the number of entries is unchanged, nothing
  is evicted, and a get of the key returns the new value.
\<close>

theorem reinsert_moves_to_end:
  assumes "run_ops (Cache_init C) ops = Inr c" and "dict_contains (store c) key"
  shows "Cache_setitem c key val =
           Inr (c\<lparr>store := filter (\<lambda>p. fst p \<noteq> key) (store c) @ [(key, val)]\<rparr>)
       \<and> length (filter (\<lambda>p. fst p \<noteq> key) (store c) @ [(key, val)]) = length (store c)
       \<and> Cache_getitem (c\<lparr>store := filter (\<lambda>p. fst p \<noteq> key) (store c) @ [(key, val)]\<rparr>) key = val"
proof -
  let ?s2 = "filter (\<lambda>p. fst p \<noteq> key) (store c) @ [(key, val)]"
  from reachable_inv [OF assms(1)]
  have dc: "distinct (map fst (store c))" and cc: "capacity c = C"
    and bc: "0 \<le> C \<longrightarrow> int (length (store c)) \<le> C"
    by simp_all
  have len: "length ?s2 = length (store c)"
    using length_filter_key_present [OF dc, of key] assms(2) by (simp add: dict_contains_def)
  have "(if capacity c < int (length ?s2) then drop (nat (capacity c div 2 + 1)) ?s2 else ?s2) = ?s2"
  proof (cases "0 \<le> C")
    case True
    with bc cc len show ?thesis by (simp del: length_append)
  next
    case False
    with cc have "nat (capacity c div 2 + 1) = 0" by linarith
    then show ?thesis by (simp del: drop_append)
  qed
  then have "Cache_setitem c key val = Inr (c\<lparr>store := ?s2\<rparr>)"
    unfolding setitem_store [OF dc] by (simp add: Let_def del: drop_append length_append)
  moreover have "map_of ?s2 key = Some val"
    by (rule map_of_snoc_fresh) auto
  then have "Cache_getitem (c\<lparr>store := ?s2\<rparr>) key = val"
    by (simp add: Cache_getitem_def dict_get_def del: map_of_append)
  ultimately show ?thesis using len by simp
qed

theorem reinsert_moves_to_end_witness:
  "run_ops (Cache_init 3) [Put (1::nat) (Obj (10::nat)), Put 2 (Obj 20), Put 3 (Obj 30)]
     = Inr \<lparr>capacity = 3, store = [(1, Obj 10), (2, Obj 20), (3, Obj 30)]\<rparr>
   \<and> dict_contains [(1::nat, Obj (10::nat)), (2, Obj 20), (3, Obj 30)] 1
   \<and> Cache_setitem \<lparr>capacity = 3, store = [(1::nat, Obj (10::nat)), (2, Obj 20), (3, Obj 30)]\<rparr> 1 (Obj 11)
     = Inr \<lparr>capacity = 3, store = [(2, Obj 20), (3, Obj 30), (1, Obj 11)]\<rparr>"
  using reinsert_moves_to_end [of 3 "[Put (1::nat) (Obj (10::nat)), Put 2 (Obj 20), Put 3 (Obj 30)]"
      "\<lparr>capacity = 3, store = [(1::nat, Obj (10::nat)), (2, Obj 20), (3, Obj 30)]\<rparr>" 1 "Obj 11"]
  by (simp add: Cache_init_def Cache_setitem_def dict_contains_def dict_del_def dict_len_def
      Let_def)

section \<open>Lookup\<close>

text \<open>
  Claim C9. A get raises nothing, whatever the cache and the key: for a key that is not
  in the store (never inserted, or evicted) it returns \<^verbatim>\<open>None\<close>, and for a key in
  the store it returns the value stored with it.
\<close>

theorem get_absent_is_none:
  "(\<not> dict_contains (store c) key \<longrightarrow> Cache_getitem c key = PyNone)
   \<and> (dict_contains (store c) key \<longrightarrow> (key, Cache_getitem c key) \<in> set (store c))"
proof -
  have "map_of (store c) key = None" if "\<not> dict_contains (store c) key"
    using that by (simp add: dict_contains_def map_of_eq_None_iff)
  moreover have "\<exists>v. map_of (store c) key = Some v \<and> (key, v) \<in> set (store c)"
    if "dict_contains (store c) key"
  proof -
    from that obtain b where "(key, b) \<in> set (store c)"
      by (auto simp: dict_contains_def)
    then obtain v where "map_of (store c) key = Some v"
      using weak_map_of_SomeI by fast
    then show ?thesis by (auto dest: map_of_SomeD)
  qed
  ultimately show ?thesis
    by (auto simp: Cache_getitem_def dict_get_def)
qed

theorem get_absent_is_none_witness:
  "\<not> dict_contains [(2::nat, Obj (20::nat))] 1
   \<and> Cache_getitem \<lparr>capacity = 1, store = [(2::nat, Obj (20::nat))]\<rparr> 1 = PyNone
   \<and> dict_contains [(2::nat, Obj (20::nat))] 2
   \<and> Cache_getitem \<lparr>capacity = 1, store = [(2::nat, Obj (20::nat))]\<rparr> 2 = Obj 20"
  using get_absent_is_none [of "\<lparr>capacity = 1, store = [(2::nat, Obj (20::nat))]\<rparr>" 1]
    get_absent_is_none [of "\<lparr>capacity = 1, store = [(2::nat, Obj (20::nat))]\<rparr>" 2]
  by (simp add: dict_contains_def)

lemma setitem_cases:
  assumes "distinct (map fst (store c))" and "Cache_setitem c k v = Inr c'"
  obtains (evict) "capacity c < int (length (filter (\<lambda>p. fst p \<noteq> k) (store c) @ [(k, v)]))"
      and "store c' = drop (nat (capacity c div 2 + 1))
                        (filter (\<lambda>p. fst p \<noteq> k) (store c) @ [(k, v)])"
    | (keep) "\<not> capacity c < int (length (filter (\<lambda>p. fst p \<noteq> k) (store c) @ [(k, v)]))"
      and "store c' = filter (\<lambda>p. fst p \<noteq> k) (store c) @ [(k, v)]"
  using assms(2) unfolding setitem_store [OF assms(1)]
  by (cases "capacity c < int (length (filter (\<lambda>p. fst p \<noteq> k) (store c) @ [(k, v)]))")
     (auto simp: Let_def simp del: drop_append length_append)

lemma setitem_lookup:
  assumes "0 < capacity c" and "distinct (map fst (store c))"
    and "Cache_setitem c k v = Inr c'"
  shows "map_of (store c') k = Some v"
proof -
  let ?s1 = "filter (\<lambda>p. fst p \<noteq> k) (store c)"
  let ?n = "nat (capacity c div 2 + 1)"
  have fresh: "k \<notin> set (map fst (drop m ?s1))" for m
    by (auto dest: in_set_dropD)
  from assms(2,3) show ?thesis
  proof (cases rule: setitem_cases)
    case evict
    from evict(1) assms(1) have "?n \<le> length ?s1"
      by simp
    then have "drop ?n (?s1 @ [(k, v)]) = drop ?n ?s1 @ [(k, v)]"
      by simp
    moreover have "map_of (drop ?n ?s1 @ [(k, v)]) k = Some v"
      using fresh [of ?n] by (rule map_of_snoc_fresh)
    ultimately show ?thesis
      using evict(2) by (simp only:)
  next
    case keep
    have "map_of (?s1 @ [(k, v)]) k = Some v"
      by (rule map_of_snoc_fresh) auto
    with keep(2) show ?thesis
      by (simp only:)
  qed
qed

lemma setitem_other_key:
  assumes "distinct (map fst (store c))" and "Cache_setitem c k' w = Inr c'" and "k \<noteq> k'"
  shows "map_of (store c') k = None \<or> map_of (store c') k = map_of (store c) k"
proof -
  let ?s2 = "filter (\<lambda>p. fst p \<noteq> k') (store c) @ [(k', w)]"
  have same: "map_of ?s2 k = map_of (store c) k"
    using assms(3) by (rule map_of_filter_other)
  have dist: "distinct (map fst ?s2)"
    using assms(1) by (rule distinct_filter_snoc)
  from assms(1,2) show ?thesis
  proof (cases rule: setitem_cases)
    case evict
    from map_of_drop_distinct [OF dist, of "nat (capacity c div 2 + 1)" k] show ?thesis
      unfolding same evict(2) .
  next
    case keep
    from same show ?thesis
      unfolding keep(2) by (rule disjI2)
  qed
qed

lemma run_ops_other_keys:
  "distinct (map fst (store c)) \<Longrightarrow> \<forall>op \<in> set ops. \<not> puts_key k op \<Longrightarrow>
   run_ops c ops = Inr c' \<Longrightarrow>
   map_of (store c') k = None \<or> map_of (store c') k = map_of (store c) k"
proof (induction ops arbitrary: c)
  case Nil
  then show ?case by simp
next
  case (Cons op ops)
  show ?case
  proof (cases op)
    case (Put k' w)
    obtain c1 where c1: "Cache_setitem c k' w = Inr c1"
      using setitem_store [OF Cons.prems(1)] by blast
    from Cons.prems(2) Put have ne: "k \<noteq> k'"
      by auto
    have d1: "distinct (map fst (store c1))"
      using setitem_keeps [OF Cons.prems(1) c1] by simp
    have rest: "\<forall>op \<in> set ops. \<not> puts_key k op"
      using Cons.prems(2) by simp
    have run: "run_ops c1 ops = Inr c'"
      using Cons.prems(3) Put c1 by simp
    from Cons.IH [OF d1 rest run] setitem_other_key [OF Cons.prems(1) c1 ne]
    show ?thesis by auto
  next
    case (Get k')
    with Cons.prems have "run_ops c ops = Inr c'" and "\<forall>op \<in> set ops. \<not> puts_key k op"
      by simp_all
    with Cons.IH [OF Cons.prems(1)] show ?thesis by simp
  qed
qed

text \<open>
  Claim C4. In a cache with positive capacity, right after a put of \<open>k\<close> with \<open>v\<close> a
  get of \<open>k\<close> returns \<open>v\<close>; and after any further operations that do not put \<open>k\<close>
  again, a get of \<open>k\<close> still returns \<open>v\<close> as long as \<open>k\<close> is in the store, that is,
  until it is evicted.
\<close>

theorem get_after_put:
  assumes "0 < capacity c" and "distinct (map fst (store c))"
    and "\<forall>op \<in> set ops. \<not> puts_key k op"
  shows "\<exists>c' c''. Cache_setitem c k v = Inr c' \<and> Cache_getitem c' k = v
           \<and> run_ops c' ops = Inr c''
           \<and> (dict_contains (store c'') k \<longrightarrow> Cache_getitem c'' k = v)"
proof -
  obtain c' where c': "Cache_setitem c k v = Inr c'"
    using setitem_store [OF assms(2)] by blast
  have look: "map_of (store c') k = Some v"
    using assms(1,2) c' by (rule setitem_lookup)
  have d': "distinct (map fst (store c'))"
    using setitem_keeps [OF assms(2) c'] by simp
  obtain c'' where c'': "run_ops c' ops = Inr c''"
    using run_ops_total [OF d', of ops] by blast
  from run_ops_other_keys [OF d' assms(3) c''] look
  have "map_of (store c'') k = None \<or> map_of (store c'') k = Some v"
    by simp
  then have "dict_contains (store c'') k \<longrightarrow> Cache_getitem c'' k = v"
    by (auto simp: dict_contains_def Cache_getitem_def dict_get_def map_of_eq_None_iff)
  moreover have "Cache_getitem c' k = v"
    using look by (simp add: Cache_getitem_def dict_get_def)
  ultimately show ?thesis
    using c' c'' by blast
qed

theorem get_after_put_witness:
  "Cache_setitem \<lparr>capacity = 2, store = [(1::nat, Obj (10::nat))]\<rparr> 2 (Obj 20)
     = Inr \<lparr>capacity = 2, store = [(1, Obj 10), (2, Obj 20)]\<rparr>
   \<and> Cache_getitem \<lparr>capacity = 2, store = [(1::nat, Obj (10::nat)), (2, Obj 20)]\<rparr> 2 = Obj 20
   \<and> run_ops \<lparr>capacity = 2, store = [(1::nat, Obj (10::nat)), (2, Obj 20)]\<rparr> [Get 1, Put 3 (Obj 30)]
     = Inr \<lparr>capacity = 2, store = [(3, Obj 30)]\<rparr>
   \<and> run_ops \<lparr>capacity = 2, store = [(1::nat, Obj (10::nat)), (2, Obj 20)]\<rparr> [Get 1, Put 1 (Obj 11)]
     = Inr \<lparr>capacity = 2, store = [(2, Obj 20), (1, Obj 11)]\<rparr>
   \<and> Cache_getitem \<lparr>capacity = 2, store = [(2::nat, Obj (20::nat)), (1, Obj 11)]\<rparr> 2 = Obj 20"
  using get_after_put [of "\<lparr>capacity = 2, store = [(1::nat, Obj (10::nat))]\<rparr>"
      "[Get 1, Put 1 (Obj 11)]" 2 "Obj 20"]
  by (simp add: Cache_setitem_def Cache_getitem_def dict_contains_def dict_del_def dict_len_def
      dict_get_def dict_first_key_def Let_def eval_nat_numeral)

section \<open>Capacities that are not positive\<close>

lemma setitem_capacity_zero:
  assumes "capacity c = 0" and "store c = []"
  shows "Cache_setitem c k v = Inr c"
proof -
  have "distinct (map fst (store c))"
    using assms(2) by simp
  from setitem_store [OF this, of k v] assms show ?thesis
    by (simp add: Let_def)
qed

lemma run_ops_capacity_zero:
  "capacity c = 0 \<Longrightarrow> store c = [] \<Longrightarrow> run_ops c ops = Inr c"
proof (induction ops)
  case Nil
  then show ?case by simp
next
  case (Cons op ops)
  then show ?case
    by (cases op) (simp_all add: setitem_capacity_zero)
qed

text \<open>
  Claim C5, as amended. A capacity that is not positive is accepted: the constructor
  returns a cache and no put raises. With capacity \<open>0\<close> the store is empty after every
  operation, so the size bound holds. With a negative capacity a put never evicts: the
  key is removed and appended, and the size exceeds the capacity afterwards.
\<close>

theorem nonpositive_capacity_accepted:
  assumes "C \<le> 0"
  shows "\<exists>c. run_ops (Cache_init C) ops = Inr c \<and> capacity c = C
           \<and> (C = 0 \<longrightarrow> store c = [])
           \<and> (C < 0 \<longrightarrow> (\<forall>k v. \<exists>c'. Cache_setitem c k v = Inr c'
                  \<and> store c' = filter (\<lambda>p. fst p \<noteq> k) (store c) @ [(k, v)]
                  \<and> capacity c' < dict_len (store c')))"
proof -
  have d0: "distinct (map fst (store (Cache_init C :: ('a, 'b) Cache)))"
    by (simp add: Cache_init_def)
  obtain c where c: "run_ops (Cache_init C) ops = Inr (c :: ('a, 'b) Cache)"
    using run_ops_total [OF d0, of ops] by blast
  from reachable_inv [OF c] have dc: "distinct (map fst (store c))" and cc: "capacity c = C"
    by simp_all
  have zero: "store c = []" if "C = 0"
  proof -
    have "run_ops (Cache_init C) ops = Inr (Cache_init C :: ('a, 'b) Cache)"
      using that by (intro run_ops_capacity_zero) (simp_all add: Cache_init_def)
    with c have "c = Cache_init C"
      by simp
    then show ?thesis
      by (simp add: Cache_init_def)
  qed
  have neg: "\<exists>c'. Cache_setitem c k v = Inr c'
        \<and> store c' = filter (\<lambda>p. fst p \<noteq> k) (store c) @ [(k, v)]
        \<and> capacity c' < dict_len (store c')" if "C < 0" for k v
  proof -
    from that cc have "nat (capacity c div 2 + 1) = 0"
      by linarith
    moreover from that cc
    have "capacity c < int (length (filter (\<lambda>p. fst p \<noteq> k) (store c) @ [(k, v)]))"
      by linarith
    ultimately show ?thesis
      unfolding setitem_store [OF dc]
      by (simp add: Let_def dict_len_def del: drop_append length_append)
  qed
  from c cc zero neg show ?thesis
    by blast
qed

theorem nonpositive_capacity_accepted_witness:
  "run_ops (Cache_init (- 1)) [Put (1::nat) (Obj (10::nat)), Put 2 (Obj 20)]
     = Inr \<lparr>capacity = - 1, store = [(1, Obj 10), (2, Obj 20)]\<rparr>
   \<and> Cache_setitem \<lparr>capacity = - 1, store = [(1::nat, Obj (10::nat)), (2, Obj 20)]\<rparr> 3 (Obj 30)
     = Inr \<lparr>capacity = - 1, store = [(1, Obj 10), (2, Obj 20), (3, Obj 30)]\<rparr>
   \<and> run_ops (Cache_init 0) [Put (1::nat) (Obj (10::nat)), Put 2 (Obj 20)]
     = Inr \<lparr>capacity = 0, store = []\<rparr>"
  using nonpositive_capacity_accepted [of "- 1" "[Put (1::nat) (Obj (10::nat)), Put 2 (Obj 20)]"]
    nonpositive_capacity_accepted [of 0 "[Put (1::nat) (Obj (10::nat)), Put 2 (Obj 20)]"]
  by (simp add: Cache_init_def Cache_setitem_def dict_contains_def dict_del_def dict_len_def
      dict_first_key_def Let_def)

text \<open>
  Claim C5 as it is stated fails for capacity \<open>- 1\<close>: the cache is created, the put
  returns, and the store then holds one entry, more than the capacity.
\<close>

theorem nonpositive_capacity_counterexample:
  "Cache_setitem (Cache_init (- 1)) (1::nat) (Obj (10::nat))
     = Inr \<lparr>capacity = - 1, store = [(1, Obj 10)]\<rparr>
   \<and> \<not> dict_len [(1::nat, Obj (10::nat))] \<le> - 1"
  by (simp add: Cache_init_def Cache_setitem_def dict_contains_def dict_len_def)

section \<open>What the constructor creates\<close>

text \<open>
  The constructor fails only where \<^verbatim>\<open>int(api_id)\<close>, the thread pool or a semaphore
  raises; when it returns, each modelled attribute is read off its arguments, and the
  two semaphores are the two objects added to the store.
\<close>

lemma Client_init_success:
  assumes "Client_init env a h = (logs, Inr (cl, h'))"
  shows "\<exists>aid.
      init_api_id env (arg_api_id a) = Inr aid
    \<and> api_id cl = fst (bot_fallback (arg_bot_token a) aid (arg_api_hash a))
    \<and> api_hash cl = snd (bot_fallback (arg_bot_token a) aid (arg_api_hash a))"
    and "workers cl = (case arg_workers a of None \<Rightarrow> WORKERS env | Some w \<Rightarrow> w)"
    and "max_concurrent_transmissions cl = (case arg_max_concurrent_transmissions a of
                   None \<Rightarrow> MAX_CONCURRENT_TRANSMISSIONS | Some m \<Rightarrow> m)"
    and "executor cl = \<lparr>max_workers = workers cl, thread_name_prefix = ''Handler''\<rparr>"
    and "save_file_semaphore cl = length h"
    and "get_file_semaphore cl = Suc (length h)"
    and "(storage cl, logs) = select_storage (MONGO_AVAIL env) (arg_name a) (arg_storage a)
          (arg_session_string a) (arg_in_memory a) (arg_mongodb a)
          (case arg_workdir a of None \<Rightarrow> parent_dir env | Some w \<Rightarrow> w)"
    and "h' = h @ [\<lparr>sem_value = max_concurrent_transmissions cl\<rparr>,
                   \<lparr>sem_value = max_concurrent_transmissions cl\<rparr>]"
  using assms unfolding Client_init_def Let_def ThreadPoolExecutor_def Semaphore_def
  by (auto split: sum.splits prod.splits if_splits)


lemma sem_lookup_snoc2:
  "sem_lookup (h @ [s1, s2]) (length h) = Some s1"
  "sem_lookup (h @ [s1, s2]) (Suc (length h)) = Some s2"
  "sem_lookup (sem_update (h @ [s1, s2]) (length h) s) (Suc (length h)) = Some s2"
  "sem_lookup (sem_update (h @ [s1, s2]) (Suc (length h)) s) (length h) = Some s1"
  "sem_lookup h (length h) = None"
  "sem_lookup h (Suc (length h)) = None"
  by (simp_all add: sem_lookup_def sem_update_def nth_append list_update_append)

lemmas client_defs =
  Client_init_def init_api_id_def truthy_api_id_def bot_fallback_def truthy_str_def
  truthy_bool_def truthy_dict_def ThreadPoolExecutor_def Semaphore_def select_storage_def
  MONGO_AVAIL_def WORKERS_def MAX_CONCURRENT_TRANSMISSIONS_def MAX_CACHE_SIZE_def Let_def
  sem_lookup_def sem_update_def



text \<open>
  Claim C7. A constructed client has two semaphores, one for \<^verbatim>\<open>save_file\<close> and one
  for \<^verbatim>\<open>get_file\<close>. They are two objects, both created by the constructor, each
  with its own counter started at \<^verbatim>\<open>max_concurrent_transmissions\<close>, which is \<open>1\<close>
  when the argument is left out. They are independent: a change of the state of one
  leaves the state of the other as it is.
\<close>

theorem two_transmission_semaphores:
  assumes "Client_init env a h = (logs, Inr (cl, h'))"
  shows "save_file_semaphore cl \<noteq> get_file_semaphore cl
       \<and> sem_lookup h' (save_file_semaphore cl)
           = Some \<lparr>sem_value = max_concurrent_transmissions cl\<rparr>
       \<and> sem_lookup h' (get_file_semaphore cl)
           = Some \<lparr>sem_value = max_concurrent_transmissions cl\<rparr>
       \<and> max_concurrent_transmissions cl =
           (case arg_max_concurrent_transmissions a of None \<Rightarrow> 1 | Some m \<Rightarrow> m)
       \<and> sem_lookup h (save_file_semaphore cl) = None
       \<and> sem_lookup h (get_file_semaphore cl) = None
       \<and> sem_lookup (sem_update h' (save_file_semaphore cl) s) (get_file_semaphore cl)
           = sem_lookup h' (get_file_semaphore cl)
       \<and> sem_lookup (sem_update h' (get_file_semaphore cl) s) (save_file_semaphore cl)
           = sem_lookup h' (save_file_semaphore cl)"
proof -
  note facts = Client_init_success [OF assms]
  have "max_concurrent_transmissions cl =
          (case arg_max_concurrent_transmissions a of None \<Rightarrow> 1 | Some m \<Rightarrow> m)"
    using facts(3) by (simp add: MAX_CONCURRENT_TRANSMISSIONS_def split: option.splits)
  then show ?thesis
    unfolding facts(5,6,8) sem_lookup_snoc2 by simp
qed

theorem two_transmission_semaphores_witness:
  "Client_init
     \<lparr>cpu_count = Some 2, pymongo_importable = True, parent_dir = ''/app'',
       int_of_str = (\<lambda>s. None)\<rparr>
     \<lparr>arg_name = ''bot'', arg_api_id = Some (IdInt 5), arg_api_hash = Some ''h'',
       arg_bot_token = None, arg_session_string = None, arg_in_memory = Some True,
       arg_mongodb = None, arg_storage = (None :: unit option),
       arg_workers = None, arg_workdir = None, arg_max_concurrent_transmissions = None,
       arg_max_message_cache_size = None,
       arg_max_business_user_connection_cache_size = None\<rparr>
     [\<lparr>sem_value = 7\<rparr>]
   = ([],
      Inr (\<lparr>name = ''bot'', api_id = Some 5, api_hash = Some ''h'',
       bot_token = None, session_string = None, in_memory = Some True,
       mongodb = None, workers = 6, workdir = ''/app'',
       max_concurrent_transmissions = 1, max_message_cache_size = 10000,
       max_business_user_connection_cache_size = 10000,
       executor = \<lparr>max_workers = 6, thread_name_prefix = ''Handler''\<rparr>,
       storage = MemoryStorage ''bot'' None,
       save_file_semaphore = 1, get_file_semaphore = 2\<rparr>,
       [\<lparr>sem_value = 7\<rparr>, \<lparr>sem_value = 1\<rparr>, \<lparr>sem_value = 1\<rparr>]))
   \<and> Client_init
     \<lparr>cpu_count = Some 2, pymongo_importable = True, parent_dir = ''/app'',
       int_of_str = (\<lambda>s. None)\<rparr>
     \<lparr>arg_name = ''bot'', arg_api_id = Some (IdInt 5), arg_api_hash = Some ''h'',
       arg_bot_token = None, arg_session_string = None, arg_in_memory = Some True,
       arg_mongodb = None, arg_storage = (None :: unit option),
       arg_workers = None, arg_workdir = None, arg_max_concurrent_transmissions = Some 3,
       arg_max_message_cache_size = None,
       arg_max_business_user_connection_cache_size = None\<rparr>
     [\<lparr>sem_value = 7\<rparr>]
   = ([],
      Inr (\<lparr>name = ''bot'', api_id = Some 5, api_hash = Some ''h'',
       bot_token = None, session_string = None, in_memory = Some True,
       mongodb = None, workers = 6, workdir = ''/app'',
       max_concurrent_transmissions = 3, max_message_cache_size = 10000,
       max_business_user_connection_cache_size = 10000,
       executor = \<lparr>max_workers = 6, thread_name_prefix = ''Handler''\<rparr>,
       storage = MemoryStorage ''bot'' None,
       save_file_semaphore = 1, get_file_semaphore = 2\<rparr>,
       [\<lparr>sem_value = 7\<rparr>, \<lparr>sem_value = 3\<rparr>, \<lparr>sem_value = 3\<rparr>]))
   \<and> sem_lookup (sem_update [\<lparr>sem_value = 7\<rparr>, \<lparr>sem_value = 3\<rparr>, \<lparr>sem_value = 3\<rparr>] 1 \<lparr>sem_value = 0\<rparr>) 2
       = Some \<lparr>sem_value = 3\<rparr>
   \<and> sem_lookup (sem_update [\<lparr>sem_value = 7\<rparr>, \<lparr>sem_value = 3\<rparr>, \<lparr>sem_value = 3\<rparr>] 2 \<lparr>sem_value = 0\<rparr>) 1
       = Some \<lparr>sem_value = 3\<rparr>"
  using two_transmission_semaphores
    [of "\<lparr>cpu_count = Some 2, pymongo_importable = True, parent_dir = ''/app'',
       int_of_str = (\<lambda>s. None)\<rparr>"
        "\<lparr>arg_name = ''bot'', arg_api_id = Some (IdInt 5), arg_api_hash = Some ''h'',
       arg_bot_token = None, arg_session_string = None, arg_in_memory = Some True,
       arg_mongodb = None, arg_storage = (None :: unit option),
       arg_workers = None, arg_workdir = None, arg_max_concurrent_transmissions = None,
       arg_max_message_cache_size = None,
       arg_max_business_user_connection_cache_size = None\<rparr>"
        "[\<lparr>sem_value = 7\<rparr>]" "[]"
        "\<lparr>name = ''bot'', api_id = Some 5, api_hash = Some ''h'',
       bot_token = None, session_string = None, in_memory = Some True,
       mongodb = None, workers = 6, workdir = ''/app'',
       max_concurrent_transmissions = 1, max_message_cache_size = 10000,
       max_business_user_connection_cache_size = 10000,
       executor = \<lparr>max_workers = 6, thread_name_prefix = ''Handler''\<rparr>,
       storage = MemoryStorage ''bot'' None,
       save_file_semaphore = 1, get_file_semaphore = 2\<rparr>"
        "[\<lparr>sem_value = 7\<rparr>, \<lparr>sem_value = 1\<rparr>, \<lparr>sem_value = 1\<rparr>]" "\<lparr>sem_value = 0\<rparr>"]
    two_transmission_semaphores
    [of "\<lparr>cpu_count = Some 2, pymongo_importable = True, parent_dir = ''/app'',
       int_of_str = (\<lambda>s. None)\<rparr>"
        "\<lparr>arg_name = ''bot'', arg_api_id = Some (IdInt 5), arg_api_hash = Some ''h'',
       arg_bot_token = None, arg_session_string = None, arg_in_memory = Some True,
       arg_mongodb = None, arg_storage = (None :: unit option),
       arg_workers = None, arg_workdir = None, arg_max_concurrent_transmissions = Some 3,
       arg_max_message_cache_size = None,
       arg_max_business_user_connection_cache_size = None\<rparr>"
        "[\<lparr>sem_value = 7\<rparr>]" "[]"
        "\<lparr>name = ''bot'', api_id = Some 5, api_hash = Some ''h'',
       bot_token = None, session_string = None, in_memory = Some True,
       mongodb = None, workers = 6, workdir = ''/app'',
       max_concurrent_transmissions = 3, max_message_cache_size = 10000,
       max_business_user_connection_cache_size = 10000,
       executor = \<lparr>max_workers = 6, thread_name_prefix = ''Handler''\<rparr>,
       storage = MemoryStorage ''bot'' None,
       save_file_semaphore = 1, get_file_semaphore = 2\<rparr>"
        "[\<lparr>sem_value = 7\<rparr>, \<lparr>sem_value = 3\<rparr>, \<lparr>sem_value = 3\<rparr>]" "\<lparr>sem_value = 0\<rparr>"]
  by (simp add: client_defs)

text \<open>
  Claim C8. A constructed client has a thread pool for the handlers whose size is the
  number of workers, which is \<open>min 32 (cpu_count + 4)\<close> when the argument is left out,
  with \<open>0\<close> for \<open>cpu_count\<close> when \<^verbatim>\<open>os.cpu_count()\<close> is \<^verbatim>\<open>None\<close>.
\<close>

theorem handler_pool_size:
  assumes "Client_init env a h = (logs, Inr (cl, h'))"
  shows "max_workers (executor cl) = workers cl
       \<and> thread_name_prefix (executor cl) = ''Handler''
       \<and> workers cl =
           (case arg_workers a of
              None \<Rightarrow> min 32 ((case cpu_count env of None \<Rightarrow> 0 | Some n \<Rightarrow> n) + 4)
            | Some w \<Rightarrow> w)"
proof -
  have "WORKERS env = min 32 ((case cpu_count env of None \<Rightarrow> 0 | Some n \<Rightarrow> n) + 4)"
    by (simp add: WORKERS_def split: option.splits)
  with Client_init_success(2,4) [OF assms] show ?thesis
    by (simp split: option.splits)
qed

theorem handler_pool_size_witness:
  "Client_init
     \<lparr>cpu_count = None, pymongo_importable = True, parent_dir = ''/app'',
       int_of_str = (\<lambda>s. None)\<rparr>
     \<lparr>arg_name = ''bot'', arg_api_id = Some (IdInt 5), arg_api_hash = Some ''h'',
       arg_bot_token = None, arg_session_string = None, arg_in_memory = None,
       arg_mongodb = None, arg_storage = (None :: unit option),
       arg_workers = None, arg_workdir = None, arg_max_concurrent_transmissions = None,
       arg_max_message_cache_size = None,
       arg_max_business_user_connection_cache_size = None\<rparr>
     []
   = ([],
      Inr (\<lparr>name = ''bot'', api_id = Some 5, api_hash = Some ''h'',
       bot_token = None, session_string = None, in_memory = None,
       mongodb = None, workers = 4, workdir = ''/app'',
       max_concurrent_transmissions = 1, max_message_cache_size = 10000,
       max_business_user_connection_cache_size = 10000,
       executor = \<lparr>max_workers = 4, thread_name_prefix = ''Handler''\<rparr>,
       storage = FileStorage ''bot'' ''/app'',
       save_file_semaphore = 0, get_file_semaphore = 1\<rparr>,
       [\<lparr>sem_value = 1\<rparr>, \<lparr>sem_value = 1\<rparr>]))
   \<and> Client_init
     \<lparr>cpu_count = Some 64, pymongo_importable = True, parent_dir = ''/app'',
       int_of_str = (\<lambda>s. None)\<rparr>
     \<lparr>arg_name = ''bot'', arg_api_id = Some (IdInt 5), arg_api_hash = Some ''h'',
       arg_bot_token = None, arg_session_string = None, arg_in_memory = None,
       arg_mongodb = None, arg_storage = (None :: unit option),
       arg_workers = None, arg_workdir = None, arg_max_concurrent_transmissions = None,
       arg_max_message_cache_size = None,
       arg_max_business_user_connection_cache_size = None\<rparr>
     []
   = ([],
      Inr (\<lparr>name = ''bot'', api_id = Some 5, api_hash = Some ''h'',
       bot_token = None, session_string = None, in_memory = None,
       mongodb = None, workers = 32, workdir = ''/app'',
       max_concurrent_transmissions = 1, max_message_cache_size = 10000,
       max_business_user_connection_cache_size = 10000,
       executor = \<lparr>max_workers = 32, thread_name_prefix = ''Handler''\<rparr>,
       storage = FileStorage ''bot'' ''/app'',
       save_file_semaphore = 0, get_file_semaphore = 1\<rparr>,
       [\<lparr>sem_value = 1\<rparr>, \<lparr>sem_value = 1\<rparr>]))
   \<and> Client_init
     \<lparr>cpu_count = None, pymongo_importable = True, parent_dir = ''/app'',
       int_of_str = (\<lambda>s. None)\<rparr>
     \<lparr>arg_name = ''bot'', arg_api_id = Some (IdInt 5), arg_api_hash = Some ''h'',
       arg_bot_token = None, arg_session_string = None, arg_in_memory = None,
       arg_mongodb = None, arg_storage = (None :: unit option),
       arg_workers = Some 2, arg_workdir = None, arg_max_concurrent_transmissions = None,
       arg_max_message_cache_size = None,
       arg_max_business_user_connection_cache_size = None\<rparr>
     []
   = ([],
      Inr (\<lparr>name = ''bot'', api_id = Some 5, api_hash = Some ''h'',
       bot_token = None, session_string = None, in_memory = None,
       mongodb = None, workers = 2, workdir = ''/app'',
       max_concurrent_transmissions = 1, max_message_cache_size = 10000,
       max_business_user_connection_cache_size = 10000,
       executor = \<lparr>max_workers = 2, thread_name_prefix = ''Handler''\<rparr>,
       storage = FileStorage ''bot'' ''/app'',
       save_file_semaphore = 0, get_file_semaphore = 1\<rparr>,
       [\<lparr>sem_value = 1\<rparr>, \<lparr>sem_value = 1\<rparr>]))"
  using handler_pool_size
    [of "\<lparr>cpu_count = None, pymongo_importable = True, parent_dir = ''/app'',
       int_of_str = (\<lambda>s. None)\<rparr>"
        "\<lparr>arg_name = ''bot'', arg_api_id = Some (IdInt 5), arg_api_hash = Some ''h'',
       arg_bot_token = None, arg_session_string = None, arg_in_memory = None,
       arg_mongodb = None, arg_storage = (None :: unit option),
       arg_workers = None, arg_workdir = None, arg_max_concurrent_transmissions = None,
       arg_max_message_cache_size = None,
       arg_max_business_user_connection_cache_size = None\<rparr>" "[]" "[]"
        "\<lparr>name = ''bot'', api_id = Some 5, api_hash = Some ''h'',
       bot_token = None, session_string = None, in_memory = None,
       mongodb = None, workers = 4, workdir = ''/app'',
       max_concurrent_transmissions = 1, max_message_cache_size = 10000,
       max_business_user_connection_cache_size = 10000,
       executor = \<lparr>max_workers = 4, thread_name_prefix = ''Handler''\<rparr>,
       storage = FileStorage ''bot'' ''/app'',
       save_file_semaphore = 0, get_file_semaphore = 1\<rparr>" "[\<lparr>sem_value = 1\<rparr>, \<lparr>sem_value = 1\<rparr>]"]
    handler_pool_size
    [of "\<lparr>cpu_count = Some 64, pymongo_importable = True, parent_dir = ''/app'',
       int_of_str = (\<lambda>s. None)\<rparr>"
        "\<lparr>arg_name = ''bot'', arg_api_id = Some (IdInt 5), arg_api_hash = Some ''h'',
       arg_bot_token = None, arg_session_string = None, arg_in_memory = None,
       arg_mongodb = None, arg_storage = (None :: unit option),
       arg_workers = None, arg_workdir = None, arg_max_concurrent_transmissions = None,
       arg_max_message_cache_size = None,
       arg_max_business_user_connection_cache_size = None\<rparr>" "[]" "[]"
        "\<lparr>name = ''bot'', api_id = Some 5, api_hash = Some ''h'',
       bot_token = None, session_string = None, in_memory = None,
       mongodb = None, workers = 32, workdir = ''/app'',
       max_concurrent_transmissions = 1, max_message_cache_size = 10000,
       max_business_user_connection_cache_size = 10000,
       executor = \<lparr>max_workers = 32, thread_name_prefix = ''Handler''\<rparr>,
       storage = FileStorage ''bot'' ''/app'',
       save_file_semaphore = 0, get_file_semaphore = 1\<rparr>" "[\<lparr>sem_value = 1\<rparr>, \<lparr>sem_value = 1\<rparr>]"]
    handler_pool_size
    [of "\<lparr>cpu_count = None, pymongo_importable = True, parent_dir = ''/app'',
       int_of_str = (\<lambda>s. None)\<rparr>"
        "\<lparr>arg_name = ''bot'', arg_api_id = Some (IdInt 5), arg_api_hash = Some ''h'',
       arg_bot_token = None, arg_session_string = None, arg_in_memory = None,
       arg_mongodb = None, arg_storage = (None :: unit option),
       arg_workers = Some 2, arg_workdir = None, arg_max_concurrent_transmissions = None,
       arg_max_message_cache_size = None,
       arg_max_business_user_connection_cache_size = None\<rparr>" "[]" "[]"
        "\<lparr>name = ''bot'', api_id = Some 5, api_hash = Some ''h'',
       bot_token = None, session_string = None, in_memory = None,
       mongodb = None, workers = 2, workdir = ''/app'',
       max_concurrent_transmissions = 1, max_message_cache_size = 10000,
       max_business_user_connection_cache_size = 10000,
       executor = \<lparr>max_workers = 2, thread_name_prefix = ''Handler''\<rparr>,
       storage = FileStorage ''bot'' ''/app'',
       save_file_semaphore = 0, get_file_semaphore = 1\<rparr>" "[\<lparr>sem_value = 1\<rparr>, \<lparr>sem_value = 1\<rparr>]"]
  by (simp add: client_defs)




text \<open>
  In general, credentials that are both given are kept, whatever the bot token: an
  \<^verbatim>\<open>api_hash\<close> that is a string, the empty one included, is not replaced when
  \<^verbatim>\<open>api_id\<close> is given.
\<close>

lemma given_credentials_kept:
  assumes "Client_init env a h = (logs, Inr (cl, h'))"
    and "truthy_api_id (arg_api_id a)" and "arg_api_hash a = Some hs"
  shows "api_hash cl = Some hs \<and> init_api_id env (arg_api_id a) = Inr (api_id cl)
         \<and> api_id cl \<noteq> None"
proof -
  from Client_init_success(1) [OF assms(1)] obtain aid
    where aid: "init_api_id env (arg_api_id a) = Inr aid"
      and cl: "api_id cl = fst (bot_fallback (arg_bot_token a) aid (arg_api_hash a))"
        "api_hash cl = snd (bot_fallback (arg_bot_token a) aid (arg_api_hash a))"
    by blast
  have "aid \<noteq> None"
  proof (cases "arg_api_id a")
    case None
    with assms(2) show ?thesis
      by (simp add: truthy_api_id_def)
  next
    case (Some x)
    with aid assms(2) show ?thesis
      by (cases x; cases "int_of_str env (case x of IdStr s \<Rightarrow> s | IdInt n \<Rightarrow> [])")
         (auto simp: init_api_id_def)
  qed
  with assms(3) have "bot_fallback (arg_bot_token a) aid (arg_api_hash a) = (aid, Some hs)"
    by (simp add: bot_fallback_def)
  with cl aid \<open>aid \<noteq> None\<close> show ?thesis
    by simp
qed

end
